theory Spec2Isabelle
  imports Main
begin

section \<open>Identifiers\<close>

text \<open>
  The identifier message of flyteidl (\<^verbatim>\<open>identifier_pb2.Identifier\<close>). Its enumeration of
  resource types lives in that external library; the source names \<^verbatim>\<open>LAUNCH_PLAN\<close> and
  \<^verbatim>\<open>TASK\<close> and treats every other value as a workflow. A proto3 enumeration field starts
  at its zero value, \<^verbatim>\<open>UNSPECIFIED\<close>, so an identifier can carry a type that is none of
  the three registrable ones.
\<close>

datatype resource_type = UNSPECIFIED | TASK | WORKFLOW | LAUNCH_PLAN | DATASET

record Identifier =
  resource_type :: resource_type
  project :: string
  domain :: string
  name :: string
  version :: string

text \<open>
  Python's \<^verbatim>\<open>a or b\<close> on two strings: \<^verbatim>\<open>a\<close> when it is not empty, \<^verbatim>\<open>b\<close> otherwise.
\<close>

definition py_or :: "string \<Rightarrow> string \<Rightarrow> string" where
  "py_or a b = (if a \<noteq> [] then a else b)"

text \<open>
  \<^verbatim>\<open>_hydrate_identifier(project, domain, version, identifier)\<close> assigns the three fields
  of the message in turn and returns the message. The model returns the updated value.
\<close>

definition hydrate_identifier :: "string \<Rightarrow> string \<Rightarrow> string \<Rightarrow> Identifier \<Rightarrow> Identifier" where
  "hydrate_identifier p d v ident =
     (let ident = ident\<lparr>project := py_or (project ident) p\<rparr>;
          ident = ident\<lparr>domain := py_or (domain ident) d\<rparr>;
          ident = ident\<lparr>version := py_or (version ident) v\<rparr>
      in ident)"

section \<open>Workflow templates\<close>

text \<open>
  The messages of flyteidl's \<^verbatim>\<open>workflow_pb2\<close> that the source reads. Fields the source
  never touches are kept as one opaque value of type \<open>'o\<close> per message. A workflow node
  refers to a launch plan or to a sub-workflow through a \<^verbatim>\<open>oneof\<close>, which may also be
  unset; \<^verbatim>\<open>HasField\<close> tells the three cases apart. A node's target is a \<^verbatim>\<open>oneof\<close> too:
  a task node, a workflow node, or anything else (a branch node, or no target).
\<close>

datatype workflow_reference =
  Launchplan_ref Identifier | Sub_workflow_ref Identifier | Reference_not_set

record 'o TaskNode =
  reference_id :: Identifier
  task_node_other :: 'o

record 'o WorkflowNode =
  reference :: workflow_reference
  workflow_node_other :: 'o

datatype 'o target =
  Task_node "'o TaskNode" | Workflow_node "'o WorkflowNode" | Other_target 'o

record 'o Node =
  target :: "'o target"
  node_other :: 'o

text \<open>The field \<^verbatim>\<open>id\<close> of a template is \<open>template_id\<close> here (\<open>id\<close> is HOL's identity).\<close>

record 'o WorkflowTemplate =
  template_id :: Identifier
  nodes :: "'o Node list"
  template_other :: 'o

text \<open>
  The body of the loop of \<^verbatim>\<open>_hydrate_workflow_template\<close> for one node. The source
  hydrates the reference in place; every \<^verbatim>\<open>CopyFrom\<close> there copies a message onto
  itself.
\<close>

definition hydrate_node :: "string \<Rightarrow> string \<Rightarrow> string \<Rightarrow> 'o Node \<Rightarrow> 'o Node" where
  "hydrate_node p d v node =
     (case target node of
        Task_node task_node \<Rightarrow>
          node\<lparr>target := Task_node
            (task_node\<lparr>reference_id := hydrate_identifier p d v (reference_id task_node)\<rparr>)\<rparr>
      | Workflow_node workflow_node \<Rightarrow>
          (case reference workflow_node of
             Launchplan_ref launchplan_ref \<Rightarrow>
               node\<lparr>target := Workflow_node
                 (workflow_node\<lparr>reference :=
                    Launchplan_ref (hydrate_identifier p d v launchplan_ref)\<rparr>)\<rparr>
           | Sub_workflow_ref sub_workflow_ref \<Rightarrow>
               node\<lparr>target := Workflow_node
                 (workflow_node\<lparr>reference :=
                    Sub_workflow_ref (hydrate_identifier p d v sub_workflow_ref)\<rparr>)\<rparr>
           | Reference_not_set \<Rightarrow> node)
      | Other_target other \<Rightarrow> node)"

text \<open>The loop over \<^verbatim>\<open>template.nodes\<close>, appending to \<^verbatim>\<open>refreshed_nodes\<close>.\<close>

fun hydrate_nodes ::
  "string \<Rightarrow> string \<Rightarrow> string \<Rightarrow> 'o Node list \<Rightarrow> 'o Node list \<Rightarrow> 'o Node list" where
  "hydrate_nodes p d v [] refreshed_nodes = refreshed_nodes"
| "hydrate_nodes p d v (node # rest) refreshed_nodes =
     hydrate_nodes p d v rest (refreshed_nodes @ [hydrate_node p d v node])"

definition hydrate_workflow_template ::
  "string \<Rightarrow> string \<Rightarrow> string \<Rightarrow> 'o WorkflowTemplate \<Rightarrow> 'o WorkflowTemplate" where
  "hydrate_workflow_template p d v template =
     template\<lparr>nodes := hydrate_nodes p d v (nodes template) []\<rparr>"

text \<open>
  What a claim about node order needs: the kind of a node, and the node with its
  reference identifiers blanked out (two nodes with equal blanked forms differ in their
  reference identifiers at most).
\<close>

datatype node_kind = Task_reference | Workflow_reference | Other_kind

definition node_kind :: "'o Node \<Rightarrow> node_kind" where
  "node_kind node =
     (case target node of
        Task_node _ \<Rightarrow> Task_reference
      | Workflow_node _ \<Rightarrow> Workflow_reference
      | Other_target _ \<Rightarrow> Other_kind)"

definition blank_identifier :: Identifier where
  "blank_identifier =
     \<lparr>resource_type = UNSPECIFIED, project = [], domain = [], name = [], version = []\<rparr>"

definition without_references :: "'o Node \<Rightarrow> 'o Node" where
  "without_references node =
     (case target node of
        Task_node task_node \<Rightarrow>
          node\<lparr>target := Task_node (task_node\<lparr>reference_id := blank_identifier\<rparr>)\<rparr>
      | Workflow_node workflow_node \<Rightarrow>
          (case reference workflow_node of
             Launchplan_ref _ \<Rightarrow>
               node\<lparr>target := Workflow_node
                 (workflow_node\<lparr>reference := Launchplan_ref blank_identifier\<rparr>)\<rparr>
           | Sub_workflow_ref _ \<Rightarrow>
               node\<lparr>target := Workflow_node
                 (workflow_node\<lparr>reference := Sub_workflow_ref blank_identifier\<rparr>)\<rparr>
           | Reference_not_set \<Rightarrow> node)
      | Other_target other \<Rightarrow> node)"

section \<open>Registration\<close>

text \<open>
  The entity handed to \<^verbatim>\<open>hydrate_registration_parameters\<close> is one of three messages
  of flyteidl: a launch plan spec (with a \<^verbatim>\<open>workflow_id\<close>), a task spec (with a
  \<^verbatim>\<open>template\<close> that has an \<^verbatim>\<open>id\<close>), or a workflow spec (with a \<^verbatim>\<open>template\<close> and
  \<^verbatim>\<open>sub_workflows\<close>). Reading a field that the message does not have raises Python's
  \<^verbatim>\<open>AttributeError\<close>.
\<close>

record 'o TaskTemplate =
  task_template_id :: Identifier
  task_template_other :: 'o

datatype 'o entity =
  LaunchPlanSpec Identifier 'o
| TaskSpec "'o TaskTemplate" 'o
| WorkflowSpec "'o WorkflowTemplate" "'o WorkflowTemplate list" 'o

text \<open>
  Python exceptions as values. \<open>Raised\<close> carries an exception of a collaborator that is
  not part of the modelled code.
\<close>

datatype 'e error = Exception string | IndexError | AttributeError string | Raised 'e

text \<open>\<^verbatim>\<open>entity.workflow_id.CopyFrom(_hydrate_identifier(..., entity.workflow_id))\<close>\<close>

definition hydrate_workflow_id ::
  "string \<Rightarrow> string \<Rightarrow> string \<Rightarrow> 'o entity \<Rightarrow> 'e error + 'o entity" where
  "hydrate_workflow_id p d v entity =
     (case entity of
        LaunchPlanSpec workflow_id other \<Rightarrow>
          Inr (LaunchPlanSpec (hydrate_identifier p d v workflow_id) other)
      | _ \<Rightarrow> Inl (AttributeError ''workflow_id''))"

text \<open>\<^verbatim>\<open>entity.template.id.CopyFrom(identifier)\<close>\<close>

definition copy_to_template_id :: "Identifier \<Rightarrow> 'o entity \<Rightarrow> 'e error + 'o entity" where
  "copy_to_template_id ident entity =
     (case entity of
        TaskSpec template other \<Rightarrow> Inr (TaskSpec (template\<lparr>task_template_id := ident\<rparr>) other)
      | WorkflowSpec template sub_workflows other \<Rightarrow>
          Inr (WorkflowSpec (template\<lparr>template_id := ident\<rparr>) sub_workflows other)
      | LaunchPlanSpec _ _ \<Rightarrow> Inl (AttributeError ''template''))"

text \<open>The loop over \<^verbatim>\<open>entity.sub_workflows\<close>.\<close>

fun hydrate_sub_workflows ::
  "string \<Rightarrow> string \<Rightarrow> string \<Rightarrow> 'o WorkflowTemplate list \<Rightarrow> 'o WorkflowTemplate list
     \<Rightarrow> 'o WorkflowTemplate list" where
  "hydrate_sub_workflows p d v [] refreshed_sub_workflows = refreshed_sub_workflows"
| "hydrate_sub_workflows p d v (sub_workflow # rest) refreshed_sub_workflows =
     hydrate_sub_workflows p d v rest
       (refreshed_sub_workflows @ [hydrate_workflow_template p d v sub_workflow])"

definition refresh_sub_workflows ::
  "string \<Rightarrow> string \<Rightarrow> string \<Rightarrow> 'o entity \<Rightarrow> 'e error + 'o entity" where
  "refresh_sub_workflows p d v entity =
     (case entity of
        WorkflowSpec template sub_workflows other \<Rightarrow>
          Inr (WorkflowSpec template (hydrate_sub_workflows p d v sub_workflows []) other)
      | _ \<Rightarrow> Inl (AttributeError ''sub_workflows''))"

definition hydrate_registration_parameters ::
  "Identifier \<Rightarrow> string \<Rightarrow> string \<Rightarrow> string \<Rightarrow> 'o entity
     \<Rightarrow> 'e error + (Identifier \<times> 'o entity)" where
  "hydrate_registration_parameters ident p d v entity =
     (let ident = hydrate_identifier p d v ident in
      if resource_type ident = LAUNCH_PLAN then
        (case hydrate_workflow_id p d v entity of
           Inl e \<Rightarrow> Inl e
         | Inr entity \<Rightarrow> Inr (ident, entity))
      else
        (case copy_to_template_id ident entity of
           Inl e \<Rightarrow> Inl e
         | Inr entity \<Rightarrow>
             if resource_type ident = TASK then Inr (ident, entity)
             else
               (case refresh_sub_workflows p d v entity of
                  Inl e \<Rightarrow> Inl e
                | Inr entity \<Rightarrow> Inr (ident, entity))))"

text \<open>The \<^verbatim>\<open>template.id\<close> of an entity, when it has a template.\<close>

definition entity_template_id :: "'o entity \<Rightarrow> Identifier option" where
  "entity_template_id entity =
     (case entity of
        TaskSpec template _ \<Rightarrow> Some (task_template_id template)
      | WorkflowSpec template _ _ \<Rightarrow> Some (template_id template)
      | LaunchPlanSpec _ _ \<Rightarrow> None)"

section \<open>Literal maps from text arguments\<close>

text \<open>
  The text arguments are a Python dictionary from names to strings in which a value may
  be \<^verbatim>\<open>None\<close>. The test \<^verbatim>\<open>var_name in text_args and text_args[var_name] is not None\<close>
  of the source is \<open>supplied\<close>.
\<close>

type_synonym text_args = "string \<rightharpoonup> string option"

definition supplied :: "text_args \<Rightarrow> string \<Rightarrow> string option" where
  "supplied text_args var_name =
     (case text_args var_name of
        None \<Rightarrow> None
      | Some None \<Rightarrow> None
      | Some (Some s) \<Rightarrow> Some s)"

text \<open>
  Variables and parameters as in \<^verbatim>\<open>flytekit.models.interface\<close>. The default of a
  parameter is a literal or \<^verbatim>\<open>None\<close>. A literal map stores what the source assigns to
  \<^verbatim>\<open>inputs[var_name]\<close>: a parsed literal, or a parameter's default as it is (so possibly
  \<^verbatim>\<open>None\<close>).
\<close>

record 'ty Variable =
  var_type :: 'ty
  description :: string

record ('ty, 'lit) Parameter =
  var :: "'ty Variable"
  default_literal :: "'lit option"
  required :: bool

type_synonym 'lit literal_map = "string \<rightharpoonup> 'lit option"

text \<open>
  The two collaborators of the source are taken as parameters:
  \<open>get_sdk_type\<close> is \<^verbatim>\<open>get_sdk_type_from_literal_type\<close> and \<open>from_string\<close> is the
  \<^verbatim>\<open>from_string\<close> method of the SDK type it returns. Either may raise; the exception is
  not caught by the source and ends the call.
\<close>

definition parse_text ::
  "('ty \<Rightarrow> 'e + 'sdk) \<Rightarrow> ('sdk \<Rightarrow> string \<Rightarrow> 'e + 'lit) \<Rightarrow> 'ty \<Rightarrow> string \<Rightarrow> 'e + 'lit" where
  "parse_text get_sdk_type from_string ty s =
     (case get_sdk_type ty of
        Inl e \<Rightarrow> Inl e
      | Inr sdk_type \<Rightarrow> from_string sdk_type s)"

text \<open>
  The loop of \<^verbatim>\<open>construct_literal_map_from_variable_map\<close> over the items of the
  variable dictionary (an association list in iteration order), with \<^verbatim>\<open>inputs\<close> as
  accumulator.
\<close>

fun variable_map_loop ::
  "('ty \<Rightarrow> 'e + 'sdk) \<Rightarrow> ('sdk \<Rightarrow> string \<Rightarrow> 'e + 'lit) \<Rightarrow> text_args
     \<Rightarrow> (string \<times> 'ty Variable) list \<Rightarrow> 'lit literal_map \<Rightarrow> 'e error + 'lit literal_map" where
  "variable_map_loop get_sdk_type from_string text_args [] inputs = Inr inputs"
| "variable_map_loop get_sdk_type from_string text_args ((var_name, variable) # rest) inputs =
     (case supplied text_args var_name of
        Some s \<Rightarrow>
          (case get_sdk_type (var_type variable) of
             Inl e \<Rightarrow> Inl (Raised e)
           | Inr sdk_type \<Rightarrow>
               (case from_string sdk_type s of
                  Inl e \<Rightarrow> Inl (Raised e)
                | Inr literal \<Rightarrow>
                    variable_map_loop get_sdk_type from_string text_args rest
                      (inputs(var_name \<mapsto> Some literal))))
      | None \<Rightarrow> variable_map_loop get_sdk_type from_string text_args rest inputs)"

definition construct_literal_map_from_variable_map ::
  "('ty \<Rightarrow> 'e + 'sdk) \<Rightarrow> ('sdk \<Rightarrow> string \<Rightarrow> 'e + 'lit)
     \<Rightarrow> (string \<times> 'ty Variable) list \<Rightarrow> text_args \<Rightarrow> 'e error + 'lit literal_map" where
  "construct_literal_map_from_variable_map get_sdk_type from_string variable_dict text_args =
     variable_map_loop get_sdk_type from_string text_args variable_dict Map.empty"

text \<open>
  The loop of \<^verbatim>\<open>construct_literal_map_from_parameter_map\<close>. The SDK type is looked up
  first, for every parameter, before the source tests whether the parameter is required.
\<close>

fun parameter_map_loop ::
  "('ty \<Rightarrow> 'e + 'sdk) \<Rightarrow> ('sdk \<Rightarrow> string \<Rightarrow> 'e + 'lit) \<Rightarrow> text_args
     \<Rightarrow> (string \<times> ('ty, 'lit) Parameter) list \<Rightarrow> 'lit literal_map
     \<Rightarrow> 'e error + 'lit literal_map" where
  "parameter_map_loop get_sdk_type from_string text_args [] inputs = Inr inputs"
| "parameter_map_loop get_sdk_type from_string text_args ((var_name, parameter) # rest) inputs =
     (case get_sdk_type (var_type (var parameter)) of
        Inl e \<Rightarrow> Inl (Raised e)
      | Inr sdk_type \<Rightarrow>
          if required parameter then
            (case supplied text_args var_name of
               Some s \<Rightarrow>
                 (case from_string sdk_type s of
                    Inl e \<Rightarrow> Inl (Raised e)
                  | Inr literal \<Rightarrow>
                      parameter_map_loop get_sdk_type from_string text_args rest
                        (inputs(var_name \<mapsto> Some literal)))
             | None \<Rightarrow> Inl (Exception (''Missing required parameter '' @ var_name)))
          else
            (case supplied text_args var_name of
               Some s \<Rightarrow>
                 (case from_string sdk_type s of
                    Inl e \<Rightarrow> Inl (Raised e)
                  | Inr literal \<Rightarrow>
                      parameter_map_loop get_sdk_type from_string text_args rest
                        (inputs(var_name \<mapsto> Some literal)))
             | None \<Rightarrow>
                 parameter_map_loop get_sdk_type from_string text_args rest
                   (inputs(var_name \<mapsto> default_literal parameter))))"

definition construct_literal_map_from_parameter_map ::
  "('ty \<Rightarrow> 'e + 'sdk) \<Rightarrow> ('sdk \<Rightarrow> string \<Rightarrow> 'e + 'lit)
     \<Rightarrow> (string \<times> ('ty, 'lit) Parameter) list \<Rightarrow> text_args \<Rightarrow> 'e error + 'lit literal_map" where
  "construct_literal_map_from_parameter_map get_sdk_type from_string parameters text_args =
     parameter_map_loop get_sdk_type from_string text_args parameters Map.empty"

text \<open>The error the specification calls MissingRequiredParameter, as the source raises it.\<close>

definition MissingRequiredParameter :: "string \<Rightarrow> 'e error" where
  "MissingRequiredParameter var_name = Exception (''Missing required parameter '' @ var_name)"

section \<open>Booleans from strings\<close>

text \<open>
  \<^verbatim>\<open>str.lower()\<close>. A string is a list of bytes here, and only the letters A to Z are
  mapped. Python also lowers letters outside ASCII, but none of them to a character
  of the four words below, so \<open>str2bool\<close> is the same on every string.
\<close>

definition lower_char :: "char \<Rightarrow> char" where
  "lower_char c =
     (let n = (of_char c :: nat) in if 65 \<le> n \<and> n \<le> 90 then char_of (n + 32) else c)"

definition lower :: "string \<Rightarrow> string" where
  "lower s = map lower_char s"

definition str2bool :: "string \<Rightarrow> bool" where
  "str2bool str = (\<not> (lower str \<in> set [''false'', ''0'', ''off'', ''no'']))"

text \<open>
  The specification's words, without \<open>lower\<close>: two strings are the same up to letter case
  when they have the same length and agree at every position, where a lower-case
  letter also agrees with its capital.
\<close>

definition capital_of :: "char \<Rightarrow> char" where
  "capital_of c =
     (let n = (of_char c :: nat) in if 97 \<le> n \<and> n \<le> 122 then char_of (n - 32) else c)"

definition spells :: "string \<Rightarrow> string \<Rightarrow> bool" where
  "spells s word = list_all2 (\<lambda>c l. c = l \<or> c = capital_of l) s word"

section \<open>Splitting text arguments\<close>

text \<open>\<^verbatim>\<open>s.split(sep, 1)\<close> for a separator of one character: at most one split, at the first
  separator.\<close>

definition split_once :: "char \<Rightarrow> string \<Rightarrow> string list" where
  "split_once sep s =
     (if sep \<in> set s
      then [takeWhile (\<lambda>c. c \<noteq> sep) s, tl (dropWhile (\<lambda>c. c \<noteq> sep) s)]
      else [s])"

text \<open>\<^verbatim>\<open>xs[i]\<close> for an index that is not negative.\<close>

definition item :: "'a list \<Rightarrow> nat \<Rightarrow> 'e error + 'a" where
  "item xs i = (if i < length xs then Inr (xs ! i) else Inl IndexError)"

text \<open>
  The dictionary comprehension of \<^verbatim>\<open>parse_args_into_dict\<close> over the list of split
  arguments: a later key replaces an earlier one; the first failing index ends it.
\<close>

fun dict_of_splits ::
  "string list list \<Rightarrow> (string \<rightharpoonup> string) \<Rightarrow> 'e error + (string \<rightharpoonup> string)" where
  "dict_of_splits [] dict = Inr dict"
| "dict_of_splits (split_arg # rest) dict =
     (case item split_arg 0 of
        Inl e \<Rightarrow> Inl e
      | Inr key \<Rightarrow>
          (case item split_arg 1 of
             Inl e \<Rightarrow> Inl e
           | Inr val \<Rightarrow> dict_of_splits rest (dict(key \<mapsto> val))))"

definition parse_args_into_dict :: "string list \<Rightarrow> 'e error + (string \<rightharpoonup> string)" where
  "parse_args_into_dict input_arguments =
     dict_of_splits (map (split_once CHR ''='') input_arguments) Map.empty"

section \<open>Properties of identifier hydration\<close>

text \<open>
  C1. Hydration returns an identifier whose project is the input's project when that is
  not empty and the context's project otherwise, likewise for domain and version; the
  name and the resource type are the input's.
\<close>

theorem hydrate_identifier_fields:
  "project (hydrate_identifier p d v ident) = (if project ident \<noteq> [] then project ident else p)
   \<and> domain (hydrate_identifier p d v ident) = (if domain ident \<noteq> [] then domain ident else d)
   \<and> version (hydrate_identifier p d v ident) = (if version ident \<noteq> [] then version ident else v)
   \<and> name (hydrate_identifier p d v ident) = name ident
   \<and> resource_type (hydrate_identifier p d v ident) = resource_type ident"
  by (simp add: hydrate_identifier_def py_or_def Let_def)

text \<open>
  C9. Hydration is idempotent: hydrating a hydrated identifier again in the same context
  changes nothing.
\<close>

theorem hydrate_identifier_idempotent:
  "hydrate_identifier p d v (hydrate_identifier p d v ident) = hydrate_identifier p d v ident"
  by (simp add: hydrate_identifier_def py_or_def Let_def)

section \<open>Properties of template hydration\<close>

lemma hydrate_nodes_map:
  "hydrate_nodes p d v ns acc = acc @ map (hydrate_node p d v) ns"
  by (induction ns arbitrary: acc) simp_all

lemma node_kind_hydrate_node: "node_kind (hydrate_node p d v n) = node_kind n"
  by (auto simp: node_kind_def hydrate_node_def split: target.splits workflow_reference.splits)

lemma without_references_hydrate_node:
  "without_references (hydrate_node p d v n) = without_references n"
  by (auto simp: without_references_def hydrate_node_def split: target.splits workflow_reference.splits)

lemma hydrate_node_other_kind: "node_kind n = Other_kind \<Longrightarrow> hydrate_node p d v n = n"
  by (simp add: node_kind_def hydrate_node_def split: target.splits)

text \<open>
  C4. Template hydration returns as many nodes as it was given, in the same order: at
  every index the node has the kind of the input node and differs from it in its
  reference identifiers at most, and a node that is neither a task node nor a workflow
  node is returned as it is. The other fields of the template are unchanged too.
\<close>

theorem hydrate_workflow_template_nodes:
  "length (nodes (hydrate_workflow_template p d v t)) = length (nodes t)
   \<and> (\<forall>i < length (nodes t).
        node_kind (nodes (hydrate_workflow_template p d v t) ! i) = node_kind (nodes t ! i)
      \<and> without_references (nodes (hydrate_workflow_template p d v t) ! i)
          = without_references (nodes t ! i)
      \<and> (node_kind (nodes t ! i) = Other_kind
           \<longrightarrow> nodes (hydrate_workflow_template p d v t) ! i = nodes t ! i))
   \<and> template_id (hydrate_workflow_template p d v t) = template_id t
   \<and> template_other (hydrate_workflow_template p d v t) = template_other t"
  by (simp add: hydrate_workflow_template_def hydrate_nodes_map node_kind_hydrate_node
      without_references_hydrate_node hydrate_node_other_kind)

text \<open>
  A template with a task node, a workflow node that refers to a launch plan and a node of
  another kind.
\<close>

theorem hydrate_workflow_template_nodes_witness:
  "node_kind (nodes (hydrate_workflow_template ''p'' ''d'' ''v1''
      \<lparr>template_id = blank_identifier,
       nodes = [\<lparr>target = Task_node \<lparr>reference_id = blank_identifier, task_node_other = ()\<rparr>,
                 node_other = ()\<rparr>,
                \<lparr>target = Workflow_node
                   \<lparr>reference = Launchplan_ref blank_identifier, workflow_node_other = ()\<rparr>,
                 node_other = ()\<rparr>,
                \<lparr>target = Other_target (), node_other = ()\<rparr>],
       template_other = ()\<rparr>) ! 1) = Workflow_reference
   \<and> nodes (hydrate_workflow_template ''p'' ''d'' ''v1''
      \<lparr>template_id = blank_identifier,
       nodes = [\<lparr>target = Task_node \<lparr>reference_id = blank_identifier, task_node_other = ()\<rparr>,
                 node_other = ()\<rparr>,
                \<lparr>target = Workflow_node
                   \<lparr>reference = Launchplan_ref blank_identifier, workflow_node_other = ()\<rparr>,
                 node_other = ()\<rparr>,
                \<lparr>target = Other_target (), node_other = ()\<rparr>],
       template_other = ()\<rparr>) ! 2 = \<lparr>target = Other_target (), node_other = ()\<rparr>"
proof -
  let ?t = "\<lparr>template_id = blank_identifier,
       nodes = [\<lparr>target = Task_node \<lparr>reference_id = blank_identifier, task_node_other = ()\<rparr>,
                 node_other = ()\<rparr>,
                \<lparr>target = Workflow_node
                   \<lparr>reference = Launchplan_ref blank_identifier, workflow_node_other = ()\<rparr>,
                 node_other = ()\<rparr>,
                \<lparr>target = Other_target (), node_other = ()\<rparr>],
       template_other = ()\<rparr>"
  note at_index = hydrate_workflow_template_nodes
    [of "''p''" "''d''" "''v1''" ?t, THEN conjunct2, THEN conjunct1, rule_format]
  from at_index [of 1] at_index [of 2] show ?thesis
    by (simp add: node_kind_def)
qed

section \<open>Properties of registration\<close>

text \<open>The three branches of the source, entity by entity.\<close>

lemma hydrate_sub_workflows_map:
  "hydrate_sub_workflows p d v ts acc = acc @ map (hydrate_workflow_template p d v) ts"
  by (induction ts arbitrary: acc) simp_all

lemma hrp_cases:
  "(hydrate_registration_parameters ident p d v entity :: 'e error + _) =
     (let h = hydrate_identifier p d v ident in
      if resource_type ident = LAUNCH_PLAN then
        (case entity of
           LaunchPlanSpec w other \<Rightarrow> Inr (h, LaunchPlanSpec (hydrate_identifier p d v w) other)
         | _ \<Rightarrow> Inl (AttributeError ''workflow_id''))
      else if resource_type ident = TASK then
        (case entity of
           TaskSpec t other \<Rightarrow> Inr (h, TaskSpec (t\<lparr>task_template_id := h\<rparr>) other)
         | WorkflowSpec t subs other \<Rightarrow> Inr (h, WorkflowSpec (t\<lparr>template_id := h\<rparr>) subs other)
         | LaunchPlanSpec _ _ \<Rightarrow> Inl (AttributeError ''template''))
      else
        (case entity of
           TaskSpec t other \<Rightarrow> Inl (AttributeError ''sub_workflows'')
         | WorkflowSpec t subs other \<Rightarrow>
             Inr (h, WorkflowSpec (t\<lparr>template_id := h\<rparr>)
                       (map (hydrate_workflow_template p d v) subs) other)
         | LaunchPlanSpec _ _ \<Rightarrow> Inl (AttributeError ''template'')))"
  by (simp add: hydrate_registration_parameters_def Let_def hydrate_workflow_id_def
      copy_to_template_id_def refresh_sub_workflows_def hydrate_sub_workflows_map
      hydrate_identifier_def
      split: entity.splits)

text \<open>
  C2, as the specification has it, does not hold: an identifier whose resource type is
  none of the three registrable ones is not rejected. With a workflow spec the call
  returns a hydrated result.
\<close>

theorem unrecognized_kind_counterexample:
  "resource_type \<lparr>resource_type = UNSPECIFIED, project = [], domain = [], name = ''n'',
                   version = []\<rparr> \<notin> {LAUNCH_PLAN, TASK, WORKFLOW}
   \<and> (hydrate_registration_parameters
        \<lparr>resource_type = UNSPECIFIED, project = [], domain = [], name = ''n'', version = []\<rparr>
        ''p'' ''d'' ''v''
        (WorkflowSpec
           \<lparr>template_id = \<lparr>resource_type = UNSPECIFIED, project = [], domain = [],
                             name = [], version = []\<rparr>,
            nodes = [], template_other = ()\<rparr> [] ()) :: unit error + _)
     = Inr (\<lparr>resource_type = UNSPECIFIED, project = ''p'', domain = ''d'', name = ''n'',
              version = ''v''\<rparr>,
            WorkflowSpec
              \<lparr>template_id = \<lparr>resource_type = UNSPECIFIED, project = ''p'', domain = ''d'',
                                name = ''n'', version = ''v''\<rparr>,
               nodes = [], template_other = ()\<rparr> [] ())"
  by (simp add: hrp_cases Let_def hydrate_identifier_def py_or_def)

text \<open>
  C2, amended. The source tests for \<^verbatim>\<open>LAUNCH_PLAN\<close> and for \<^verbatim>\<open>TASK\<close> and takes every
  other resource type to be a workflow: on a workflow spec it returns the hydrated
  identifier and the spec with the identifier copied into \<^verbatim>\<open>template.id\<close> and every
  sub-workflow hydrated. The call fails only where the entity lacks a field that the
  workflow path reads, with Python's \<^verbatim>\<open>AttributeError\<close>.
\<close>

theorem unrecognized_kind_takes_workflow_path:
  assumes "resource_type ident \<noteq> LAUNCH_PLAN" and "resource_type ident \<noteq> TASK"
  shows "(hydrate_registration_parameters ident p d v entity :: 'e error + _) =
     (case entity of
        WorkflowSpec template sub_workflows other \<Rightarrow>
          Inr (hydrate_identifier p d v ident,
               WorkflowSpec (template\<lparr>template_id := hydrate_identifier p d v ident\<rparr>)
                 (map (hydrate_workflow_template p d v) sub_workflows) other)
      | TaskSpec _ _ \<Rightarrow> Inl (AttributeError ''sub_workflows'')
      | LaunchPlanSpec _ _ \<Rightarrow> Inl (AttributeError ''template''))"
  using assms by (simp add: hrp_cases Let_def split: entity.splits)

theorem unrecognized_kind_takes_workflow_path_witness:
  "(hydrate_registration_parameters
      \<lparr>resource_type = DATASET, project = [], domain = ''dev'', name = ''n'', version = []\<rparr>
      ''p'' ''d'' ''v1''
      (WorkflowSpec
         \<lparr>template_id = \<lparr>resource_type = WORKFLOW, project = ''q'', domain = ''prod'',
                           name = ''old'', version = ''v0''\<rparr>,
          nodes = [], template_other = ()\<rparr>
         [\<lparr>template_id = \<lparr>resource_type = WORKFLOW, project = [], domain = [],
                            name = ''sub'', version = []\<rparr>,
           nodes = [\<lparr>target = Task_node
                       \<lparr>reference_id = \<lparr>resource_type = TASK, project = [], domain = [],
                                           name = ''t'', version = []\<rparr>,
                        task_node_other = ()\<rparr>,
                     node_other = ()\<rparr>],
           template_other = ()\<rparr>]
         ()) :: unit error + _)
   = Inr (\<lparr>resource_type = DATASET, project = ''p'', domain = ''dev'', name = ''n'',
            version = ''v1''\<rparr>,
          WorkflowSpec
            \<lparr>template_id = \<lparr>resource_type = DATASET, project = ''p'', domain = ''dev'',
                              name = ''n'', version = ''v1''\<rparr>,
             nodes = [], template_other = ()\<rparr>
            [\<lparr>template_id = \<lparr>resource_type = WORKFLOW, project = [], domain = [],
                               name = ''sub'', version = []\<rparr>,
              nodes = [\<lparr>target = Task_node
                          \<lparr>reference_id = \<lparr>resource_type = TASK, project = ''p'',
                                              domain = ''d'', name = ''t'', version = ''v1''\<rparr>,
                           task_node_other = ()\<rparr>,
                        node_other = ()\<rparr>],
              template_other = ()\<rparr>]
            ())"
  using unrecognized_kind_takes_workflow_path
    [of "\<lparr>resource_type = DATASET, project = [], domain = ''dev'', name = ''n'', version = []\<rparr>"
        "''p''" "''d''" "''v1''"
        "WorkflowSpec
         \<lparr>template_id = \<lparr>resource_type = WORKFLOW, project = ''q'', domain = ''prod'',
                           name = ''old'', version = ''v0''\<rparr>,
          nodes = [], template_other = ()\<rparr>
         [\<lparr>template_id = \<lparr>resource_type = WORKFLOW, project = [], domain = [],
                            name = ''sub'', version = []\<rparr>,
           nodes = [\<lparr>target = Task_node
                       \<lparr>reference_id = \<lparr>resource_type = TASK, project = [], domain = [],
                                           name = ''t'', version = []\<rparr>,
                        task_node_other = ()\<rparr>,
                     node_other = ()\<rparr>],
           template_other = ()\<rparr>]
         ()", where ?'e = unit]
  by (simp add: hydrate_identifier_def py_or_def hydrate_workflow_template_def hydrate_node_def)

text \<open>
  C3. For an identifier of type \<^verbatim>\<open>TASK\<close> or \<^verbatim>\<open>WORKFLOW\<close>, whatever the call returns
  has the hydrated identifier as its \<^verbatim>\<open>template.id\<close>, whole, whatever the template's id
  was before; and the call does return for a workflow spec, and for a task spec with a
  \<^verbatim>\<open>TASK\<close> identifier.
\<close>

theorem registration_overwrites_template_id:
  assumes "resource_type ident = TASK \<or> resource_type ident = WORKFLOW"
  shows "(\<forall>ident' entity'.
            (hydrate_registration_parameters ident p d v entity :: 'e error + _)
              = Inr (ident', entity')
            \<longrightarrow> ident' = hydrate_identifier p d v ident
                \<and> entity_template_id entity' = Some (hydrate_identifier p d v ident))
       \<and> ((case entity of
              LaunchPlanSpec _ _ \<Rightarrow> False
            | TaskSpec _ _ \<Rightarrow> resource_type ident = TASK
            | WorkflowSpec _ _ _ \<Rightarrow> True)
           \<longrightarrow> (\<exists>entity'.
                 (hydrate_registration_parameters ident p d v entity :: 'e error + _)
                   = Inr (hydrate_identifier p d v ident, entity')))"
  using assms
  by (auto simp: hrp_cases Let_def entity_template_id_def split: entity.splits)

text \<open>
  A task spec whose template id has every field set: none of the old fields survives.
\<close>

theorem registration_overwrites_template_id_witness:
  "\<exists>entity'.
     (hydrate_registration_parameters
        \<lparr>resource_type = TASK, project = [], domain = ''dev'', name = ''t'', version = []\<rparr>
        ''p'' ''d'' ''v1''
        (TaskSpec
           \<lparr>task_template_id = \<lparr>resource_type = TASK, project = ''q'', domain = ''prod'',
                                 name = ''old'', version = ''v0''\<rparr>,
            task_template_other = ()\<rparr> ()) :: unit error + _)
       = Inr (\<lparr>resource_type = TASK, project = ''p'', domain = ''dev'', name = ''t'',
                version = ''v1''\<rparr>, entity')
     \<and> entity_template_id entity'
       = Some \<lparr>resource_type = TASK, project = ''p'', domain = ''dev'', name = ''t'',
               version = ''v1''\<rparr>"
  using registration_overwrites_template_id
    [of "\<lparr>resource_type = TASK, project = [], domain = ''dev'', name = ''t'', version = []\<rparr>"
        "''p''" "''d''" "''v1''"
        "(TaskSpec
           \<lparr>task_template_id = \<lparr>resource_type = TASK, project = ''q'', domain = ''prod'',
                                 name = ''old'', version = ''v0''\<rparr>,
            task_template_other = ()\<rparr> ())", where ?'e = unit]
  by (auto simp: hydrate_identifier_def py_or_def)

section \<open>Properties of the boolean parser\<close>

lemma of_char_lower_char:
  "(of_char (lower_char c) :: nat) =
     (if 65 \<le> (of_char c :: nat) \<and> (of_char c :: nat) \<le> 90 then of_char c + 32 else of_char c)"
  by (simp add: lower_char_def Let_def)

lemma of_char_capital_of:
  "(of_char (capital_of c) :: nat) =
     (if 97 \<le> (of_char c :: nat) \<and> (of_char c :: nat) \<le> 122 then of_char c - 32 else of_char c)"
proof -
  have "(of_char c :: nat) - 32 < 256"
    using nat_of_char_less_256 [of c] by arith
  then show ?thesis
    by (simp add: capital_of_def Let_def)
qed

lemma lower_char_eq_iff:
  assumes "\<not> (65 \<le> (of_char l :: nat) \<and> (of_char l :: nat) \<le> 90)"
  shows "lower_char c = l \<longleftrightarrow> c = l \<or> c = capital_of l"
proof -
  have "lower_char c = l \<longleftrightarrow> (of_char (lower_char c) :: nat) = of_char l"
    by simp
  moreover have "c = l \<longleftrightarrow> (of_char c :: nat) = of_char l"
    by simp
  moreover have "c = capital_of l \<longleftrightarrow> (of_char c :: nat) = of_char (capital_of l)"
    by simp
  moreover have "((if 65 \<le> n \<and> n \<le> 90 then n + 32 else n) = m)
      = (n = m \<or> n = (if 97 \<le> m \<and> m \<le> 122 then m - 32 else m))"
    if "\<not> (65 \<le> m \<and> m \<le> 90)" for n m :: nat
    using that by auto
  ultimately show ?thesis
    using assms by (simp only: of_char_lower_char of_char_capital_of)
qed

lemma lower_eq_iff_spells:
  assumes "\<forall>l \<in> set word. \<not> (65 \<le> (of_char l :: nat) \<and> (of_char l :: nat) \<le> 90)"
  shows "lower s = word \<longleftrightarrow> spells s word"
  using assms
proof (induction s arbitrary: word)
  case Nil
  then show ?case by (auto simp: lower_def spells_def)
next
  case (Cons c s)
  then show ?case
    by (cases word) (auto simp: lower_def spells_def lower_char_eq_iff)
qed

text \<open>
  C6. \<open>str2bool\<close> returns false exactly when the lower-cased string is one of
  \<^verbatim>\<open>false\<close>, \<^verbatim>\<open>0\<close>, \<^verbatim>\<open>off\<close>, \<^verbatim>\<open>no\<close>, that is, when the string spells one of these four
  words in some mix of capitals and small letters; every other string, the empty string
  among them, gives true.
\<close>

theorem str2bool_false_iff:
  "(str2bool s = False) = (lower s \<in> {''false'', ''0'', ''off'', ''no''})
   \<and> (str2bool s = False) = (\<exists>word \<in> {''false'', ''0'', ''off'', ''no''}. spells s word)
   \<and> str2bool [] = True"
proof -
  have "lower s = word \<longleftrightarrow> spells s word"
    if "word \<in> {''false'', ''0'', ''off'', ''no''}" for word
    using that by (intro lower_eq_iff_spells) auto
  then show ?thesis
    by (auto simp: str2bool_def lower_def)
qed

text \<open>The examples of the specification.\<close>

theorem str2bool_false_iff_witness:
  "str2bool ''False'' = False \<and> str2bool ''0'' = False \<and> str2bool ''Off'' = False
   \<and> str2bool ''NO'' = False \<and> str2bool '''' = True \<and> str2bool ''true'' = True
   \<and> str2bool ''yes'' = True \<and> str2bool ''1'' = True"
  using str2bool_false_iff [of "''False''"] str2bool_false_iff [of "''0''"]
    str2bool_false_iff [of "''Off''"] str2bool_false_iff [of "''NO''"]
    str2bool_false_iff [of "''true''"] str2bool_false_iff [of "''yes''"]
    str2bool_false_iff [of "''1''"]
  by (simp add: lower_def lower_char_def char_of_eq_iff)

section \<open>Properties of argument splitting\<close>

lemma split_once_append:
  "sep \<notin> set key \<Longrightarrow> split_once sep (key @ sep # val) = [key, val]"
  by (induction key) (auto simp: split_once_def)

lemma split_once_decompose:
  assumes "sep \<in> set s"
  shows "s = takeWhile (\<lambda>c. c \<noteq> sep) s @ sep # tl (dropWhile (\<lambda>c. c \<noteq> sep) s)"
proof -
  from assms have nonempty: "dropWhile (\<lambda>c. c \<noteq> sep) s \<noteq> []"
    by (auto simp: dropWhile_eq_Nil_conv)
  then have "hd (dropWhile (\<lambda>c. c \<noteq> sep) s) = sep"
    using hd_dropWhile [of "\<lambda>c. c \<noteq> sep" s] by simp
  with nonempty have "dropWhile (\<lambda>c. c \<noteq> sep) s = sep # tl (dropWhile (\<lambda>c. c \<noteq> sep) s)"
    by (cases "dropWhile (\<lambda>c. c \<noteq> sep) s") simp_all
  then show ?thesis
    using takeWhile_dropWhile_id [of "\<lambda>c. c \<noteq> sep" s] by simp
qed

lemma length_split_once: "length (split_once sep s) = (if sep \<in> set s then 2 else 1)"
  by (simp add: split_once_def)

lemma dict_of_splits_returns:
  "\<forall>split_arg \<in> set splits. 2 \<le> length split_arg \<Longrightarrow>
   dict_of_splits splits dict
     = Inr (dict ++ map_of (rev (map (\<lambda>split_arg. (split_arg ! 0, split_arg ! 1)) splits)))"
proof (induction splits arbitrary: dict)
  case Nil
  then show ?case by simp
next
  case (Cons split_arg rest)
  then have "2 \<le> length split_arg" by simp
  then have "item split_arg 0 = (Inr (split_arg ! 0) :: 'a error + _)"
    and "item split_arg 1 = (Inr (split_arg ! 1) :: 'a error + _)"
    by (auto simp: item_def)
  with Cons show ?case by simp
qed

lemma dict_of_splits_raises:
  "\<exists>split_arg \<in> set splits. length split_arg < 2 \<Longrightarrow> dict_of_splits splits dict = Inl IndexError"
proof (induction splits arbitrary: dict)
  case Nil
  then show ?case by simp
next
  case (Cons split_arg rest)
  show ?case
  proof (cases "length split_arg < 2")
    case True
    then show ?thesis by (cases split_arg) (simp_all add: item_def)
  next
    case False
    with Cons.prems have "\<exists>split_arg \<in> set rest. length split_arg < 2" by simp
    from Cons.IH [OF this] False show ?thesis by (simp add: item_def)
  qed
qed

lemma parse_args_returns:
  assumes "\<forall>a \<in> set input_arguments. CHR ''='' \<in> set a"
  shows "parse_args_into_dict input_arguments
     = Inr (map_of (rev (map (\<lambda>a. (takeWhile (\<lambda>c. c \<noteq> CHR ''='') a,
                                    tl (dropWhile (\<lambda>c. c \<noteq> CHR ''='') a))) input_arguments)))"
proof -
  have "\<forall>split_arg \<in> set (map (split_once CHR ''='') input_arguments). 2 \<le> length split_arg"
    using assms by (simp add: length_split_once)
  from dict_of_splits_returns [OF this, of Map.empty]
  have result: "parse_args_into_dict input_arguments
     = Inr (map_of (rev (map (\<lambda>split_arg. (split_arg ! 0, split_arg ! 1))
                          (map (split_once CHR ''='') input_arguments))))"
    by (simp add: parse_args_into_dict_def)
  have pairs: "map (\<lambda>split_arg. (split_arg ! 0, split_arg ! 1))
                          (map (split_once CHR ''='') input_arguments)
     = map (\<lambda>a. (takeWhile (\<lambda>c. c \<noteq> CHR ''='') a,
                                    tl (dropWhile (\<lambda>c. c \<noteq> CHR ''='') a))) input_arguments"
    using assms by (simp add: split_once_def)
  show ?thesis by (simp only: result pairs)
qed

lemma parse_args_raises:
  assumes "\<exists>a \<in> set input_arguments. CHR ''='' \<notin> set a"
  shows "parse_args_into_dict input_arguments = Inl IndexError"
proof -
  have "\<exists>split_arg \<in> set (map (split_once CHR ''='') input_arguments). length split_arg < 2"
    using assms by (simp add: length_split_once)
  from dict_of_splits_raises [OF this] show ?thesis
    by (simp add: parse_args_into_dict_def)
qed

text \<open>
  C8. When every argument has an equals sign, \<^verbatim>\<open>parse_args_into_dict\<close> returns a
  dictionary. An argument is split at its first equals sign only, so the value may hold
  further ones; where a key occurs in several arguments the value of the last one is
  stored. The keys of the dictionary are the parts before the first equals sign.
\<close>

theorem parse_args_splits_at_first_equals:
  assumes "\<forall>a \<in> set input_arguments. CHR ''='' \<in> set a"
  shows "\<exists>dict.
     (parse_args_into_dict input_arguments :: 'e error + _) = Inr dict
     \<and> (\<forall>before key val after.
          input_arguments = before @ [key @ ''='' @ val] @ after
          \<and> CHR ''='' \<notin> set key
          \<and> (\<forall>val'. key @ ''='' @ val' \<notin> set after)
          \<longrightarrow> dict key = Some val)
     \<and> dom dict = {key. CHR ''='' \<notin> set key \<and> (\<exists>val. key @ ''='' @ val \<in> set input_arguments)}"
proof -
  let ?key = "\<lambda>a. takeWhile (\<lambda>c. c \<noteq> CHR ''='') a"
  let ?val = "\<lambda>a. tl (dropWhile (\<lambda>c. c \<noteq> CHR ''='') a)"
  let ?pairs = "\<lambda>args. rev (map (\<lambda>a. (?key a, ?val a)) args)"
  let ?dict = "map_of (?pairs input_arguments)"
  have key_append: "?key (key @ CHR ''='' # val) = key" and val_append: "?val (key @ CHR ''='' # val) = val"
    if "CHR ''='' \<notin> set key" for key val
    using split_once_append [OF that, of val] by (simp_all add: split_once_def)
  have last_wins: "?dict key = Some val"
    if split: "input_arguments = before @ [key @ ''='' @ val] @ after"
      and key: "CHR ''='' \<notin> set key"
      and later: "\<forall>val'. key @ ''='' @ val' \<notin> set after"
    for before key val after
  proof -
    have "key \<notin> ?key ` set after"
    proof
      assume "key \<in> ?key ` set after"
      then obtain a where a: "a \<in> set after" and "key = ?key a" by blast
      moreover from a split assms have "CHR ''='' \<in> set a" by simp
      ultimately have "a = key @ ''='' @ ?val a"
        using split_once_decompose [of "CHR ''=''" a] by simp
      with a later show False by metis
    qed
    then have "map_of (?pairs after) key = None"
      by (simp add: map_of_eq_None_iff image_image)
    then show ?thesis
      using key by (simp add: split map_add_def key_append val_append)
  qed
  have "dom ?dict = ?key ` set input_arguments"
    by (simp add: dom_map_of_conv_image_fst image_image)
  also have "\<dots> = {key. CHR ''='' \<notin> set key \<and> (\<exists>val. key @ ''='' @ val \<in> set input_arguments)}"
  proof (intro equalityI subsetI)
    fix key assume "key \<in> ?key ` set input_arguments"
    then obtain a where a: "a \<in> set input_arguments" and k: "key = ?key a" by blast
    with assms have "a = key @ ''='' @ ?val a"
      using split_once_decompose [of "CHR ''=''" a] by simp
    moreover have "CHR ''='' \<notin> set key"
      using k set_takeWhileD [of "CHR ''=''" "\<lambda>c. c \<noteq> CHR ''=''" a] by blast
    ultimately have "CHR ''='' \<notin> set key \<and> key @ ''='' @ ?val a \<in> set input_arguments"
      using a by simp
    then show "key \<in> {key. CHR ''='' \<notin> set key \<and> (\<exists>val. key @ ''='' @ val \<in> set input_arguments)}"
      by blast
  next
    fix key assume "key \<in> {key. CHR ''='' \<notin> set key \<and> (\<exists>val. key @ ''='' @ val \<in> set input_arguments)}"
    then obtain val where "CHR ''='' \<notin> set key" and "key @ ''='' @ val \<in> set input_arguments"
      by blast
    then show "key \<in> ?key ` set input_arguments"
      using key_append [of key val] by (metis (no_types, lifting) append_Cons append_Nil image_eqI)
  qed
  finally have "dom ?dict = {key. CHR ''='' \<notin> set key \<and> (\<exists>val. key @ ''='' @ val \<in> set input_arguments)}" .
  with last_wins parse_args_returns [OF assms] show ?thesis
    by blast
qed

text \<open>
  \<^verbatim>\<open>a=b=c\<close> gives the key \<^verbatim>\<open>a\<close> and the value \<^verbatim>\<open>b=c\<close>, and replaces the earlier
  \<^verbatim>\<open>a=1\<close>.
\<close>

theorem parse_args_splits_at_first_equals_witness:
  "\<exists>dict. (parse_args_into_dict [''a=1'', ''b=x'', ''a=b=c''] :: unit error + _) = Inr dict
     \<and> dict ''a'' = Some ''b=c''"
proof -
  have "\<forall>a \<in> set [''a=1'', ''b=x'', ''a=b=c'']. CHR ''='' \<in> set a"
    by simp
  from parse_args_splits_at_first_equals [OF this, where ?'e = unit]
  obtain dict where
    returned: "(parse_args_into_dict [''a=1'', ''b=x'', ''a=b=c''] :: unit error + _) = Inr dict"
    and last_wins: "\<forall>before key val after.
          [''a=1'', ''b=x'', ''a=b=c''] = before @ [key @ ''='' @ val] @ after
          \<and> CHR ''='' \<notin> set key
          \<and> (\<forall>val'. key @ ''='' @ val' \<notin> set after)
          \<longrightarrow> dict key = Some val"
    by blast
  from last_wins [rule_format, of "[''a=1'', ''b=x'']" "''a''" "''b=c''" "[]"]
  have "dict ''a'' = Some ''b=c''"
    by simp
  with returned show ?thesis
    by blast
qed

text \<open>
  C10. \<^verbatim>\<open>parse_args_into_dict\<close> is partial: if some argument has no equals sign, the
  call ends in an \<^verbatim>\<open>IndexError\<close> and no dictionary is returned; it returns a dictionary
  exactly when every argument has an equals sign.
\<close>

theorem parse_args_partial:
  "((\<exists>a \<in> set input_arguments. CHR ''='' \<notin> set a)
      \<longrightarrow> (parse_args_into_dict input_arguments :: 'e error + _) = Inl IndexError)
   \<and> ((\<exists>dict. (parse_args_into_dict input_arguments :: 'e error + _) = Inr dict)
      \<longleftrightarrow> (\<forall>a \<in> set input_arguments. CHR ''='' \<in> set a))"
proof -
  have "(parse_args_into_dict input_arguments :: 'e error + _) = Inl IndexError"
    if "\<exists>a \<in> set input_arguments. CHR ''='' \<notin> set a"
    using that by (rule parse_args_raises)
  moreover have "\<exists>dict. (parse_args_into_dict input_arguments :: 'e error + _) = Inr dict"
    if "\<forall>a \<in> set input_arguments. CHR ''='' \<in> set a"
    using parse_args_returns [OF that] by blast
  ultimately show ?thesis
    by (metis Inl_Inr_False)
qed

theorem parse_args_partial_witness:
  "(parse_args_into_dict [''a=1'', ''b''] :: unit error + _) = Inl IndexError
   \<and> (\<exists>dict. (parse_args_into_dict [''a=1'', ''b=2''] :: unit error + _) = Inr dict)"
  using parse_args_partial [of "[''a=1'', ''b'']", where ?'e = unit]
    parse_args_partial [of "[''a=1'', ''b=2'']", where ?'e = unit]
  by simp

section \<open>Properties of literal construction\<close>

subsection \<open>From a variable map\<close>

lemma variable_map_loop_step:
  "variable_map_loop get_sdk_type from_string text_args ((var_name, variable) # rest) inputs =
     (case supplied text_args var_name of
        None \<Rightarrow> variable_map_loop get_sdk_type from_string text_args rest inputs
      | Some s \<Rightarrow>
          (case parse_text get_sdk_type from_string (var_type variable) s of
             Inl e \<Rightarrow> Inl (Raised e)
           | Inr literal \<Rightarrow>
               variable_map_loop get_sdk_type from_string text_args rest
                 (inputs(var_name \<mapsto> Some literal))))"
  by (simp add: parse_text_def split: option.splits sum.splits)

lemma variable_map_loop_other:
  "variable_map_loop get_sdk_type from_string text_args variable_dict inputs0 = Inr inputs
   \<Longrightarrow> var_name \<notin> fst ` set variable_dict \<or> supplied text_args var_name = None
   \<Longrightarrow> inputs var_name = inputs0 var_name"
proof (induction variable_dict arbitrary: inputs0)
  case Nil
  then show ?case by simp
next
  case (Cons entry rest)
  obtain name' variable' where entry: "entry = (name', variable')"
    by (cases entry)
  from Cons.prems(2) entry have rest: "var_name \<notin> fst ` set rest \<or> supplied text_args var_name = None"
    by auto
  show ?case
  proof (cases "supplied text_args name'")
    case None
    with Cons.prems(1) entry Cons.IH [OF _ rest] show ?thesis
      by (simp only: variable_map_loop_step option.case)
  next
    case (Some s)
    with Cons.prems(2) entry have differ: "var_name \<noteq> name'"
      by auto
    from Some Cons.prems(1) entry obtain literal where
      "variable_map_loop get_sdk_type from_string text_args rest
         (inputs0(name' \<mapsto> Some literal)) = Inr inputs"
      by (auto simp only: variable_map_loop_step option.case split: sum.splits)
    from Cons.IH [OF this rest] differ show ?thesis
      by simp
  qed
qed

lemma variable_map_loop_entry:
  "variable_map_loop get_sdk_type from_string text_args variable_dict inputs0 = Inr inputs
   \<Longrightarrow> distinct (map fst variable_dict)
   \<Longrightarrow> (var_name, variable) \<in> set variable_dict
   \<Longrightarrow> supplied text_args var_name = Some s
   \<Longrightarrow> \<exists>literal. parse_text get_sdk_type from_string (var_type variable) s = Inr literal
         \<and> inputs var_name = Some (Some literal)"
proof (induction variable_dict arbitrary: inputs0)
  case Nil
  then show ?case by simp
next
  case (Cons entry rest)
  obtain name' variable' where entry: "entry = (name', variable')"
    by (cases entry)
  show ?case
  proof (cases "var_name = name'")
    case True
    with Cons.prems entry have same: "variable = variable'" and fresh: "var_name \<notin> fst ` set rest"
      by (auto simp: image_iff)
    from Cons.prems(1,4) True entry obtain literal where
      parsed: "parse_text get_sdk_type from_string (var_type variable') s = Inr literal"
      and rest: "variable_map_loop get_sdk_type from_string text_args rest
                   (inputs0(name' \<mapsto> Some literal)) = Inr inputs"
      by (auto simp only: variable_map_loop_step option.case split: sum.splits)
    from variable_map_loop_other [OF rest, of var_name] fresh True
    have "inputs var_name = Some (Some literal)" by simp
    with parsed same show ?thesis
      by simp
  next
    case False
    with Cons.prems entry have member: "(var_name, variable) \<in> set rest"
      and distinct: "distinct (map fst rest)"
      by auto
    from Cons.prems(1) entry obtain inputs1 where
      "variable_map_loop get_sdk_type from_string text_args rest inputs1 = Inr inputs"
      by (auto simp only: variable_map_loop_step split: option.splits sum.splits)
    from Cons.IH [OF this distinct member Cons.prems(4)] show ?thesis .
  qed
qed

lemma variable_map_loop_returns_iff:
  "(\<exists>inputs. variable_map_loop get_sdk_type from_string text_args variable_dict inputs0
       = Inr inputs)
   \<longleftrightarrow> (\<forall>(var_name, variable) \<in> set variable_dict. \<forall>s.
          supplied text_args var_name = Some s
          \<longrightarrow> (\<exists>literal. parse_text get_sdk_type from_string (var_type variable) s = Inr literal))"
proof (induction variable_dict arbitrary: inputs0)
  case Nil
  then show ?case by simp
next
  case (Cons entry rest)
  obtain name' variable' where entry: "entry = (name', variable')"
    by (cases entry)
  show ?case
    unfolding entry variable_map_loop_step
    by (simp add: Cons.IH split: option.splits sum.splits)
qed

lemma variable_map_loop_raised:
  "variable_map_loop get_sdk_type from_string text_args variable_dict inputs0 = Inl e
   \<Longrightarrow> \<exists>x before var_name variable after s.
         e = Raised x
         \<and> variable_dict = before @ (var_name, variable) # after
         \<and> supplied text_args var_name = Some s
         \<and> parse_text get_sdk_type from_string (var_type variable) s = Inl x
         \<and> (\<forall>(earlier, variable') \<in> set before. \<forall>s'.
               supplied text_args earlier = Some s'
               \<longrightarrow> (\<exists>literal.
                     parse_text get_sdk_type from_string (var_type variable') s' = Inr literal))"
  (is "_ \<Longrightarrow> ?first_failure variable_dict")
proof (induction variable_dict arbitrary: inputs0)
  case Nil
  then show ?case by simp
next
  case (Cons entry rest)
  obtain name' variable' where entry: "entry = (name', variable')"
    by (cases entry)
  note failed = Cons.prems [unfolded entry variable_map_loop_step]
  have later: "?first_failure (entry # rest)"
    if rest: "?first_failure rest"
      and parsed: "\<forall>s'. supplied text_args name' = Some s'
        \<longrightarrow> (\<exists>literal.
              parse_text get_sdk_type from_string (var_type variable') s' = Inr literal)"
  proof -
    from rest obtain x before var_name variable after s where
      "e = Raised x" and split: "rest = before @ (var_name, variable) # after"
      and "supplied text_args var_name = Some s"
      and "parse_text get_sdk_type from_string (var_type variable) s = Inl x"
      and earlier: "\<forall>(earlier, variable') \<in> set before. \<forall>s'.
               supplied text_args earlier = Some s'
               \<longrightarrow> (\<exists>literal.
                     parse_text get_sdk_type from_string (var_type variable') s' = Inr literal)"
      by blast
    moreover from split have "entry # rest = (entry # before) @ (var_name, variable) # after"
      by simp
    moreover from earlier parsed entry
    have "\<forall>(earlier, variable') \<in> set (entry # before). \<forall>s'.
               supplied text_args earlier = Some s'
               \<longrightarrow> (\<exists>literal.
                     parse_text get_sdk_type from_string (var_type variable') s' = Inr literal)"
      by simp
    ultimately show ?thesis
      by blast
  qed
  show ?case
  proof (cases "supplied text_args name'")
    case None
    with failed have "variable_map_loop get_sdk_type from_string text_args rest inputs0 = Inl e"
      by simp
    from later [OF Cons.IH [OF this]] None show ?thesis
      by simp
  next
    case (Some s)
    show ?thesis
    proof (cases "parse_text get_sdk_type from_string (var_type variable') s")
      case (Inl x)
      with failed Some have "e = Raised x"
        by simp
      moreover have "entry # rest = [] @ (name', variable') # rest"
        by (simp add: entry)
      moreover have "\<forall>(earlier, variable') \<in> set []. \<forall>s'.
               supplied text_args earlier = Some s'
               \<longrightarrow> (\<exists>literal.
                     parse_text get_sdk_type from_string (var_type variable') s' = Inr literal)"
        by simp
      ultimately show ?thesis
        using Some Inl by blast
    next
      case (Inr literal)
      with failed Some have
        "variable_map_loop get_sdk_type from_string text_args rest
           (inputs0(name' \<mapsto> Some literal)) = Inl e"
        by simp
      from later [OF Cons.IH [OF this]] Some Inr show ?thesis
        by simp
    qed
  qed
qed

text \<open>
  C7, as the specification has it, does not hold for every argument map: a supplied
  value that its type does not parse (here \<^verbatim>\<open>abc\<close> for an integer, which Python's
  \<^verbatim>\<open>int\<close> rejects) ends the call with the parser's exception, and no map is returned.
\<close>

theorem variable_map_unparsable_counterexample:
  "construct_literal_map_from_variable_map (\<lambda>ty. Inr ty :: string + string)
     (\<lambda>sdk_type s. if sdk_type = ''integer'' \<and> s = ''abc'' then Inl ''not an integer''
                    else Inr s)
     [(''x'', \<lparr>var_type = ''integer'', description = []\<rparr>)]
     [''x'' \<mapsto> Some ''abc''] = Inl (Raised ''not an integer'')"
  by (simp add: construct_literal_map_from_variable_map_def supplied_def)

text \<open>
  C7, amended. Whenever \<^verbatim>\<open>construct_literal_map_from_variable_map\<close> returns a map, its
  keys are exactly the names of the schema that the text arguments supply with a value
  other than \<^verbatim>\<open>None\<close>, a subset of the schema's names, and each is bound to the literal
  parsed from the supplied string for the variable's type; names that are absent or
  \<^verbatim>\<open>None\<close> are left out, without an error and without a default. The call returns a map
  exactly when every supplied value is parsed; otherwise it ends with the very exception
  that the type lookup or the parser raised for the first supplied value, in the order of
  the schema, that is not parsed.
\<close>

theorem variable_map_keys:
  assumes "distinct (map fst variable_dict)"
  shows "(\<forall>inputs.
            construct_literal_map_from_variable_map get_sdk_type from_string variable_dict
              text_args = Inr inputs
            \<longrightarrow> dom inputs
                  = {var_name \<in> fst ` set variable_dict. supplied text_args var_name \<noteq> None}
                \<and> dom inputs \<subseteq> fst ` set variable_dict
                \<and> (\<forall>(var_name, variable) \<in> set variable_dict. \<forall>s.
                     supplied text_args var_name = Some s
                     \<longrightarrow> (\<exists>literal.
                           parse_text get_sdk_type from_string (var_type variable) s = Inr literal
                           \<and> inputs var_name = Some (Some literal))))
       \<and> ((\<exists>inputs.
              construct_literal_map_from_variable_map get_sdk_type from_string variable_dict
                text_args = Inr inputs)
            \<longleftrightarrow> (\<forall>(var_name, variable) \<in> set variable_dict. \<forall>s.
                   supplied text_args var_name = Some s
                   \<longrightarrow> (\<exists>literal.
                         parse_text get_sdk_type from_string (var_type variable) s
                           = Inr literal)))
       \<and> (\<forall>e.
            construct_literal_map_from_variable_map get_sdk_type from_string variable_dict
              text_args = Inl e
            \<longrightarrow> (\<exists>x before var_name variable after s.
                   e = Raised x
                   \<and> variable_dict = before @ (var_name, variable) # after
                   \<and> supplied text_args var_name = Some s
                   \<and> parse_text get_sdk_type from_string (var_type variable) s = Inl x
                   \<and> (\<forall>(earlier, variable') \<in> set before. \<forall>s'.
                         supplied text_args earlier = Some s'
                         \<longrightarrow> (\<exists>literal.
                               parse_text get_sdk_type from_string (var_type variable') s'
                                 = Inr literal))))"
proof (intro conjI allI impI)
  fix inputs
  assume returned:
    "construct_literal_map_from_variable_map get_sdk_type from_string variable_dict text_args
       = Inr inputs"
  then have loop:
    "variable_map_loop get_sdk_type from_string text_args variable_dict Map.empty = Inr inputs"
    by (simp add: construct_literal_map_from_variable_map_def)
  have entries: "\<exists>literal.
      parse_text get_sdk_type from_string (var_type variable) s = Inr literal
      \<and> inputs var_name = Some (Some literal)"
    if "(var_name, variable) \<in> set variable_dict" and "supplied text_args var_name = Some s"
    for var_name variable s
    using variable_map_loop_entry [OF loop assms that] .
  have others: "inputs var_name = None"
    if "var_name \<notin> fst ` set variable_dict \<or> supplied text_args var_name = None" for var_name
    using variable_map_loop_other [OF loop that] by simp
  show keys: "dom inputs
      = {var_name \<in> fst ` set variable_dict. supplied text_args var_name \<noteq> None}"
  proof (intro equalityI subsetI)
    fix var_name assume "var_name \<in> dom inputs"
    then obtain stored where stored: "inputs var_name = Some stored"
      by auto
    have "\<not> (var_name \<notin> fst ` set variable_dict \<or> supplied text_args var_name = None)"
    proof
      assume "var_name \<notin> fst ` set variable_dict \<or> supplied text_args var_name = None"
      from others [OF this] stored show False by simp
    qed
    then show "var_name \<in> {var_name \<in> fst ` set variable_dict. supplied text_args var_name \<noteq> None}"
      by simp
  next
    fix var_name
    assume "var_name \<in> {var_name \<in> fst ` set variable_dict. supplied text_args var_name \<noteq> None}"
    then obtain variable s where "(var_name, variable) \<in> set variable_dict"
      and "supplied text_args var_name = Some s"
      by auto
    from entries [OF this] show "var_name \<in> dom inputs"
      by auto
  qed
  then show "dom inputs \<subseteq> fst ` set variable_dict"
    by blast
  show "\<forall>(var_name, variable) \<in> set variable_dict. \<forall>s.
       supplied text_args var_name = Some s
       \<longrightarrow> (\<exists>literal.
             parse_text get_sdk_type from_string (var_type variable) s = Inr literal
             \<and> inputs var_name = Some (Some literal))"
    using entries by blast
next
  show "(\<exists>inputs.
            construct_literal_map_from_variable_map get_sdk_type from_string variable_dict
              text_args = Inr inputs)
       \<longleftrightarrow> (\<forall>(var_name, variable) \<in> set variable_dict. \<forall>s.
              supplied text_args var_name = Some s
              \<longrightarrow> (\<exists>literal.
                    parse_text get_sdk_type from_string (var_type variable) s = Inr literal))"
    unfolding construct_literal_map_from_variable_map_def
    by (rule variable_map_loop_returns_iff)
next
  fix e
  assume "construct_literal_map_from_variable_map get_sdk_type from_string variable_dict
            text_args = Inl e"
  then show "(\<exists>x before var_name variable after s.
         e = Raised x
         \<and> variable_dict = before @ (var_name, variable) # after
         \<and> supplied text_args var_name = Some s
         \<and> parse_text get_sdk_type from_string (var_type variable) s = Inl x
         \<and> (\<forall>(earlier, variable') \<in> set before. \<forall>s'.
               supplied text_args earlier = Some s'
               \<longrightarrow> (\<exists>literal.
                     parse_text get_sdk_type from_string (var_type variable') s'
                       = Inr literal)))"
    unfolding construct_literal_map_from_variable_map_def
    by (rule variable_map_loop_raised)
qed

text \<open>
  A schema of which one name is supplied, and one whose only value is rejected: the
  error is the parser's own.
\<close>

theorem variable_map_keys_witness:
  "(\<exists>inputs.
      construct_literal_map_from_variable_map (\<lambda>ty. Inr ty :: unit + string)
        (\<lambda>sdk_type s. Inr s)
        [(''a'', \<lparr>var_type = ''string'', description = ''first''\<rparr>),
         (''b'', \<lparr>var_type = ''string'', description = ''second''\<rparr>)]
        [''a'' \<mapsto> Some ''1'', ''b'' \<mapsto> None, ''c'' \<mapsto> Some ''3''] = Inr inputs
      \<and> dom inputs = {''a''} \<and> inputs ''a'' = Some (Some ''1''))
   \<and> construct_literal_map_from_variable_map (\<lambda>ty. Inr ty :: string + string)
        (\<lambda>sdk_type s. if sdk_type = ''integer'' \<and> s = ''abc'' then Inl ''not an integer''
                       else Inr s :: string + string)
        [(''x'', \<lparr>var_type = ''integer'', description = []\<rparr>)]
        [''x'' \<mapsto> Some ''abc''] = Inl (Raised ''not an integer'')"
proof (intro conjI)
  let ?get = "\<lambda>ty. Inr ty :: unit + string"
  let ?from = "\<lambda>sdk_type s. Inr s :: unit + string"
  let ?dict = "[(''a'', \<lparr>var_type = ''string'', description = ''first''\<rparr>),
        (''b'', \<lparr>var_type = ''string'', description = ''second''\<rparr>)]"
  let ?args = "[''a'' \<mapsto> Some ''1'', ''b'' \<mapsto> None, ''c'' \<mapsto> Some ''3'']"
  have distinct: "distinct (map fst ?dict)"
    by simp
  note result = variable_map_keys [OF distinct, of ?get ?from ?args]
  from result [THEN conjunct2, THEN conjunct1] obtain inputs where
    returned: "construct_literal_map_from_variable_map ?get ?from ?dict ?args = Inr inputs"
    by (auto simp: parse_text_def)
  from result [THEN conjunct1, rule_format, OF returned]
  have "dom inputs = {''a''} \<and> inputs ''a'' = Some (Some ''1'')"
    by (auto simp: supplied_def parse_text_def)
  with returned show "\<exists>inputs.
      construct_literal_map_from_variable_map ?get ?from ?dict ?args = Inr inputs
      \<and> dom inputs = {''a''} \<and> inputs ''a'' = Some (Some ''1'')"
    by blast
next
  let ?get = "\<lambda>ty. Inr ty :: string + string"
  let ?from = "\<lambda>sdk_type s. if sdk_type = ''integer'' \<and> s = ''abc''
                 then Inl ''not an integer'' else Inr s :: string + string"
  let ?dict = "[(''x'', \<lparr>var_type = ''integer'', description = []\<rparr>)]"
  let ?args = "[''x'' \<mapsto> Some ''abc'']"
  obtain e where
    failed: "construct_literal_map_from_variable_map ?get ?from ?dict ?args = Inl e"
    by (simp add: construct_literal_map_from_variable_map_def supplied_def)
  have distinct: "distinct (map fst ?dict)"
    by simp
  from variable_map_keys [OF distinct, of ?get ?from ?args, THEN conjunct2, THEN conjunct2,
      rule_format, OF failed]
  obtain x before var_name variable after s where
    e: "e = Raised x" and split: "?dict = before @ (var_name, variable) # after"
    and s: "supplied ?args var_name = Some s"
    and x: "parse_text ?get ?from (var_type variable) s = Inl x"
    by blast
  from split have "before = []" and "var_name = ''x''"
    and "variable = \<lparr>var_type = ''integer'', description = []\<rparr>"
    by (auto simp: Cons_eq_append_conv)
  with s x have "x = ''not an integer''"
    by (auto simp: supplied_def parse_text_def split: if_splits)
  with e failed
  show "construct_literal_map_from_variable_map ?get ?from ?dict ?args
      = Inl (Raised ''not an integer'')"
    by simp
qed

subsection \<open>From a parameter map\<close>

lemma parameter_map_loop_step:
  "parameter_map_loop get_sdk_type from_string text_args ((var_name, parameter) # rest) inputs =
     (case get_sdk_type (var_type (var parameter)) of
        Inl e \<Rightarrow> Inl (Raised e)
      | Inr sdk_type \<Rightarrow>
          (case supplied text_args var_name of
             Some s \<Rightarrow>
               (case from_string sdk_type s of
                  Inl e \<Rightarrow> Inl (Raised e)
                | Inr literal \<Rightarrow>
                    parameter_map_loop get_sdk_type from_string text_args rest
                      (inputs(var_name \<mapsto> Some literal)))
           | None \<Rightarrow>
               if required parameter then Inl (MissingRequiredParameter var_name)
               else parameter_map_loop get_sdk_type from_string text_args rest
                      (inputs(var_name \<mapsto> default_literal parameter))))"
  by (simp add: MissingRequiredParameter_def split: option.splits sum.splits)

lemma parameter_map_loop_other:
  "parameter_map_loop get_sdk_type from_string text_args parameters inputs0 = Inr inputs
   \<Longrightarrow> var_name \<notin> fst ` set parameters
   \<Longrightarrow> inputs var_name = inputs0 var_name"
proof (induction parameters arbitrary: inputs0)
  case Nil
  then show ?case by simp
next
  case (Cons entry rest)
  obtain name' parameter' where entry: "entry = (name', parameter')"
    by (cases entry)
  from Cons.prems(2) entry have differ: "var_name \<noteq> name'" and rest: "var_name \<notin> fst ` set rest"
    by auto
  from Cons.prems(1) entry obtain val where
    "parameter_map_loop get_sdk_type from_string text_args rest (inputs0(name' \<mapsto> val))
       = Inr inputs"
    by (auto simp only: parameter_map_loop_step split: option.splits sum.splits if_splits)
  from Cons.IH [OF this rest] differ show ?case
    by simp
qed

lemma parameter_map_loop_entry:
  "parameter_map_loop get_sdk_type from_string text_args parameters inputs0 = Inr inputs
   \<Longrightarrow> distinct (map fst parameters)
   \<Longrightarrow> (var_name, parameter) \<in> set parameters
   \<Longrightarrow> (case supplied text_args var_name of
          Some s \<Rightarrow>
            \<exists>literal.
              parse_text get_sdk_type from_string (var_type (var parameter)) s = Inr literal
              \<and> inputs var_name = Some (Some literal)
        | None \<Rightarrow> \<not> required parameter \<and> inputs var_name = Some (default_literal parameter))"
proof (induction parameters arbitrary: inputs0)
  case Nil
  then show ?case by simp
next
  case (Cons entry rest)
  obtain name' parameter' where entry: "entry = (name', parameter')"
    by (cases entry)
  show ?case
  proof (cases "var_name = name'")
    case True
    with Cons.prems entry have same: "parameter = parameter'"
      and fresh: "var_name \<notin> fst ` set rest"
      by (auto simp: image_iff)
    from Cons.prems(1) entry obtain sdk_type where
      found: "get_sdk_type (var_type (var parameter')) = Inr sdk_type"
      by (auto simp only: parameter_map_loop_step split: sum.splits)
    show ?thesis
    proof (cases "supplied text_args name'")
      case None
      with Cons.prems(1) entry found have optional: "\<not> required parameter'"
        and rest: "parameter_map_loop get_sdk_type from_string text_args rest
                     (inputs0(name' \<mapsto> default_literal parameter')) = Inr inputs"
        by (auto simp only: parameter_map_loop_step sum.case option.case split: if_splits)
      from parameter_map_loop_other [OF rest fresh] True
      have "inputs var_name = Some (default_literal parameter')" by simp
      with None optional same True show ?thesis by simp
    next
      case (Some s)
      with Cons.prems(1) entry found obtain literal where
        parsed: "from_string sdk_type s = Inr literal"
        and rest: "parameter_map_loop get_sdk_type from_string text_args rest
                     (inputs0(name' \<mapsto> Some literal)) = Inr inputs"
        by (auto simp only: parameter_map_loop_step sum.case option.case split: sum.splits)
      from parameter_map_loop_other [OF rest fresh] True
      have "inputs var_name = Some (Some literal)" by simp
      with Some found parsed same True show ?thesis
        by (simp add: parse_text_def)
    qed
  next
    case False
    with Cons.prems entry have member: "(var_name, parameter) \<in> set rest"
      and distinct: "distinct (map fst rest)"
      by auto
    from Cons.prems(1) entry obtain inputs1 where
      "parameter_map_loop get_sdk_type from_string text_args rest inputs1 = Inr inputs"
      by (auto simp only: parameter_map_loop_step split: option.splits sum.splits if_splits)
    from Cons.IH [OF this distinct member] show ?thesis .
  qed
qed

lemma parameter_map_loop_failure:
  "parameter_map_loop get_sdk_type from_string text_args parameters inputs0 = Inl e
   \<Longrightarrow> (\<exists>var_name parameter.
          e = MissingRequiredParameter var_name \<and> (var_name, parameter) \<in> set parameters
          \<and> required parameter \<and> supplied text_args var_name = None)
       \<or> (\<exists>x. e = Raised x
            \<and> (\<exists>(var_name, parameter) \<in> set parameters.
                  get_sdk_type (var_type (var parameter)) = Inl x
                  \<or> (\<exists>s. supplied text_args var_name = Some s
                        \<and> parse_text get_sdk_type from_string (var_type (var parameter)) s
                          = Inl x)))"
  (is "_ \<Longrightarrow> ?cause parameters")
proof (induction parameters arbitrary: inputs0)
  case Nil
  then show ?case by simp
next
  case (Cons entry rest)
  obtain name' parameter' where entry: "entry = (name', parameter')"
    by (cases entry)
  have later: "?cause (entry # rest)" if "?cause rest"
    using that by (elim disjE exE conjE bexE) (simp; blast)+
  note failed = Cons.prems [unfolded entry parameter_map_loop_step]
  show ?case
  proof (cases "get_sdk_type (var_type (var parameter'))")
    case (Inl x)
    with failed have "e = Raised x" by simp
    with Inl entry show ?thesis by auto
  next
    case found: (Inr sdk_type)
    show ?thesis
    proof (cases "supplied text_args name'")
      case None
      show ?thesis
      proof (cases "required parameter'")
        case True
        with failed found None have "e = MissingRequiredParameter name'" by simp
        with True None entry show ?thesis by auto
      next
        case False
        with failed found None have
          "parameter_map_loop get_sdk_type from_string text_args rest
             (inputs0(name' \<mapsto> default_literal parameter')) = Inl e"
          by simp
        from later [OF Cons.IH [OF this]] show ?thesis .
      qed
    next
      case (Some s)
      show ?thesis
      proof (cases "from_string sdk_type s")
        case (Inl x)
        with failed found Some have "e = Raised x" by simp
        moreover from Inl found
        have "parse_text get_sdk_type from_string (var_type (var parameter')) s = Inl x"
          by (simp add: parse_text_def)
        ultimately show ?thesis using Some entry by auto
      next
        case (Inr literal)
        with failed found Some have
          "parameter_map_loop get_sdk_type from_string text_args rest
             (inputs0(name' \<mapsto> Some literal)) = Inl e"
          by simp
        from later [OF Cons.IH [OF this]] show ?thesis .
      qed
    qed
  qed
qed

text \<open>
  C5, as the specification has it, does not hold: there is a third outcome. A supplied
  value that its type does not parse ends the call with the parser's exception, which is
  neither a map nor the error for a missing required parameter.
\<close>

theorem parameter_map_unparsable_counterexample:
  "construct_literal_map_from_parameter_map (\<lambda>ty. Inr ty :: string + string)
     (\<lambda>sdk_type s. if sdk_type = ''integer'' \<and> s = ''abc'' then Inl ''not an integer''
                    else Inr s)
     [(''x'', \<lparr>var = \<lparr>var_type = ''integer'', description = []\<rparr>,
               default_literal = None, required = True\<rparr>)]
     [''x'' \<mapsto> Some ''abc''] = Inl (Raised ''not an integer'')"
  by (simp add: construct_literal_map_from_parameter_map_def supplied_def)

text \<open>
  C5, amended. \<^verbatim>\<open>construct_literal_map_from_parameter_map\<close> has three outcomes. When it
  returns a map, the map has one entry for each parameter of the schema and no other:
  the literal parsed from the supplied string where the text arguments supply one, and
  the stored default, as it is, where they do not and the parameter is not required.
  When it fails, then either with the error for a missing required parameter, naming a
  required parameter of the schema that is absent or \<^verbatim>\<open>None\<close> in the text arguments, or
  with the exception that the type lookup or the parser raised for a parameter of the
  schema. A failure returns no map at all.
\<close>

theorem parameter_map_outcomes:
  assumes "distinct (map fst parameters)"
  shows "(\<forall>inputs.
            construct_literal_map_from_parameter_map get_sdk_type from_string parameters text_args
              = Inr inputs
            \<longrightarrow> dom inputs = fst ` set parameters
                \<and> (\<forall>(var_name, parameter) \<in> set parameters.
                     case supplied text_args var_name of
                       Some s \<Rightarrow>
                         \<exists>literal.
                           parse_text get_sdk_type from_string (var_type (var parameter)) s
                             = Inr literal
                           \<and> inputs var_name = Some (Some literal)
                     | None \<Rightarrow>
                         \<not> required parameter
                         \<and> inputs var_name = Some (default_literal parameter)))
       \<and> (\<forall>e.
            construct_literal_map_from_parameter_map get_sdk_type from_string parameters text_args
              = Inl e
            \<longrightarrow> (\<exists>var_name parameter.
                   e = MissingRequiredParameter var_name
                   \<and> (var_name, parameter) \<in> set parameters
                   \<and> required parameter \<and> supplied text_args var_name = None)
                \<or> (\<exists>x. e = Raised x
                     \<and> (\<exists>(var_name, parameter) \<in> set parameters.
                           get_sdk_type (var_type (var parameter)) = Inl x
                           \<or> (\<exists>s. supplied text_args var_name = Some s
                                 \<and> parse_text get_sdk_type from_string
                                     (var_type (var parameter)) s = Inl x))))"
proof (intro conjI allI impI)
  fix inputs
  assume "construct_literal_map_from_parameter_map get_sdk_type from_string parameters text_args
            = Inr inputs"
  then have loop:
    "parameter_map_loop get_sdk_type from_string text_args parameters Map.empty = Inr inputs"
    by (simp add: construct_literal_map_from_parameter_map_def)
  note entry = parameter_map_loop_entry [OF loop assms]
  show "\<forall>(var_name, parameter) \<in> set parameters.
         case supplied text_args var_name of
           Some s \<Rightarrow>
             \<exists>literal.
               parse_text get_sdk_type from_string (var_type (var parameter)) s = Inr literal
               \<and> inputs var_name = Some (Some literal)
         | None \<Rightarrow> \<not> required parameter \<and> inputs var_name = Some (default_literal parameter)"
    using entry by blast
  show "dom inputs = fst ` set parameters"
  proof (intro equalityI subsetI)
    fix var_name assume "var_name \<in> dom inputs"
    then obtain stored where stored: "inputs var_name = Some stored"
      by auto
    show "var_name \<in> fst ` set parameters"
    proof (rule ccontr)
      assume "var_name \<notin> fst ` set parameters"
      from parameter_map_loop_other [OF loop this] stored show False by simp
    qed
  next
    fix var_name assume "var_name \<in> fst ` set parameters"
    then obtain parameter where "(var_name, parameter) \<in> set parameters"
      by auto
    from entry [OF this] show "var_name \<in> dom inputs"
      by (auto split: option.splits)
  qed
next
  fix e
  assume "construct_literal_map_from_parameter_map get_sdk_type from_string parameters text_args
            = Inl e"
  then have "parameter_map_loop get_sdk_type from_string text_args parameters Map.empty = Inl e"
    by (simp add: construct_literal_map_from_parameter_map_def)
  then show "(\<exists>var_name parameter.
                   e = MissingRequiredParameter var_name
                   \<and> (var_name, parameter) \<in> set parameters
                   \<and> required parameter \<and> supplied text_args var_name = None)
                \<or> (\<exists>x. e = Raised x
                     \<and> (\<exists>(var_name, parameter) \<in> set parameters.
                           get_sdk_type (var_type (var parameter)) = Inl x
                           \<or> (\<exists>s. supplied text_args var_name = Some s
                                 \<and> parse_text get_sdk_type from_string
                                     (var_type (var parameter)) s = Inl x)))"
    by (rule parameter_map_loop_failure)
qed

text \<open>
  The two examples of the specification: a default is used unparsed, and a required
  parameter that is missing is named in the error.
\<close>

theorem parameter_map_outcomes_witness:
  "(\<exists>inputs.
      construct_literal_map_from_parameter_map (\<lambda>ty. Inr ty :: unit + string)
        (\<lambda>sdk_type s. Inr s)
        [(''x'', \<lparr>var = \<lparr>var_type = ''string'', description = []\<rparr>,
                  default_literal = None, required = True\<rparr>),
         (''y'', \<lparr>var = \<lparr>var_type = ''string'', description = []\<rparr>,
                  default_literal = Some ''D'', required = False\<rparr>)]
        [''x'' \<mapsto> Some ''1''] = Inr inputs
      \<and> dom inputs = {''x'', ''y''}
      \<and> inputs ''x'' = Some (Some ''1'') \<and> inputs ''y'' = Some (Some ''D''))
   \<and> construct_literal_map_from_parameter_map (\<lambda>ty. Inr ty :: unit + string)
        (\<lambda>sdk_type s. Inr s :: unit + string)
        [(''x'', \<lparr>var = \<lparr>var_type = ''string'', description = []\<rparr>,
                  default_literal = None, required = True\<rparr>)]
        Map.empty = Inl (MissingRequiredParameter ''x'')"
proof -
  let ?get = "\<lambda>ty. Inr ty :: unit + string"
  let ?from = "\<lambda>sdk_type s. Inr s :: unit + string"
  let ?x = "(''x'', \<lparr>var = \<lparr>var_type = ''string'', description = []\<rparr>,
                  default_literal = None :: string option, required = True\<rparr>)"
  let ?y = "(''y'', \<lparr>var = \<lparr>var_type = ''string'', description = []\<rparr>,
                  default_literal = Some ''D'', required = False\<rparr>)"
  let ?args = "[''x'' \<mapsto> Some ''1'']"
  have distinct: "distinct (map fst [?x, ?y])" and distinct_x: "distinct (map fst [?x])"
    by simp_all
  obtain inputs where
    returned: "construct_literal_map_from_parameter_map ?get ?from [?x, ?y] ?args = Inr inputs"
    by (simp add: construct_literal_map_from_parameter_map_def supplied_def)
  from parameter_map_outcomes [OF distinct, THEN conjunct1, rule_format, OF returned]
  have "dom inputs = {''x'', ''y''}
      \<and> inputs ''x'' = Some (Some ''1'') \<and> inputs ''y'' = Some (Some ''D'')"
    by (auto simp: supplied_def parse_text_def)
  moreover
  obtain e where
    failed: "construct_literal_map_from_parameter_map ?get ?from [?x] Map.empty = Inl e"
    by (simp add: construct_literal_map_from_parameter_map_def supplied_def)
  from parameter_map_outcomes [OF distinct_x, THEN conjunct2, rule_format, OF failed]
  have "e = MissingRequiredParameter ''x''"
    by (auto simp: supplied_def parse_text_def)
  ultimately show ?thesis
    using returned failed by blast
qed

end
